theory Spec2Isabelle
  imports Main "HOL-Library.Sublist"
begin

section \<open>JSON values and the dynamic operations the code applies to them\<close>

text \<open>
  The records handled by \<^verbatim>\<open>cfg_generator.py\<close> are what \<^verbatim>\<open>json.loads\<close> returns:
  dictionaries with string keys (insertion-ordered, here association lists), lists,
  strings, integers, booleans and \<^verbatim>\<open>None\<close>. Floating-point numbers are left out.
\<close>

datatype json =
    JNull
  | JBool bool
  | JInt int
  | JStr string
  | JList "json list"
  | JDict "(string \<times> json) list"

datatype error =
    TypeError
  | KeyError
  | AttributeError
  | UnboundLocalError
  | JSONDecodeError
  | CollaboratorError

definition bind_r :: "error + 'a \<Rightarrow> ('a \<Rightarrow> error + 'b) \<Rightarrow> error + 'b" where
  "bind_r m f = (case m of Inl e \<Rightarrow> Inl e | Inr x \<Rightarrow> f x)"

text \<open>\<^verbatim>\<open>d[k] = v\<close> on a dictionary: an existing key keeps its position, a new key is appended.\<close>

fun dict_set :: "string \<Rightarrow> json \<Rightarrow> (string \<times> json) list \<Rightarrow> (string \<times> json) list" where
  "dict_set k v [] = [(k, v)]"
| "dict_set k v (p # ps) = (if fst p = k then (k, v) # ps else p # dict_set k v ps)"

text \<open>\<^verbatim>\<open>k in x\<close>: key membership for a dictionary, element membership for a list,
  substring test for a string, \<^verbatim>\<open>TypeError\<close> for the other values.\<close>

definition py_contains :: "string \<Rightarrow> json \<Rightarrow> error + bool" where
  "py_contains k x =
     (case x of
        JDict kvs \<Rightarrow> Inr (k \<in> set (map fst kvs))
      | JList xs \<Rightarrow> Inr (JStr k \<in> set xs)
      | JStr s \<Rightarrow> Inr (sublist k s)
      | _ \<Rightarrow> Inl TypeError)"

text \<open>\<^verbatim>\<open>x[k] = v\<close> with a string key: only a dictionary supports it.\<close>

definition py_setitem :: "json \<Rightarrow> string \<Rightarrow> json \<Rightarrow> error + json" where
  "py_setitem x k v =
     (case x of JDict kvs \<Rightarrow> Inr (JDict (dict_set k v kvs)) | _ \<Rightarrow> Inl TypeError)"

text \<open>\<^verbatim>\<open>x[k]\<close> with a string key: \<^verbatim>\<open>KeyError\<close> on a dictionary without the key,
  \<^verbatim>\<open>TypeError\<close> on every other value.\<close>

definition py_getitem :: "json \<Rightarrow> string \<Rightarrow> error + json" where
  "py_getitem x k =
     (case x of
        JDict kvs \<Rightarrow> (case map_of kvs k of None \<Rightarrow> Inl KeyError | Some v \<Rightarrow> Inr v)
      | _ \<Rightarrow> Inl TypeError)"

text \<open>\<^verbatim>\<open>x.get(k)\<close>: \<^verbatim>\<open>None\<close> for a missing key; only dictionaries have the method.\<close>

definition py_get :: "json \<Rightarrow> string \<Rightarrow> error + json" where
  "py_get x k =
     (case x of
        JDict kvs \<Rightarrow> (case map_of kvs k of None \<Rightarrow> Inr JNull | Some v \<Rightarrow> Inr v)
      | _ \<Rightarrow> Inl AttributeError)"

text \<open>Iteration (\<^verbatim>\<open>for e in x\<close>): the elements of a list, the keys of a dictionary,
  the one-character strings of a string.\<close>

definition py_iter :: "json \<Rightarrow> error + json list" where
  "py_iter x =
     (case x of
        JList xs \<Rightarrow> Inr xs
      | JDict kvs \<Rightarrow> Inr (map (\<lambda>p. JStr (fst p)) kvs)
      | JStr s \<Rightarrow> Inr (map (\<lambda>c. JStr [c]) s)
      | _ \<Rightarrow> Inl TypeError)"

text \<open>Truth value of an object in a condition.\<close>

definition truthy :: "json \<Rightarrow> bool" where
  "truthy x =
     (case x of
        JNull \<Rightarrow> False
      | JBool b \<Rightarrow> b
      | JInt i \<Rightarrow> i \<noteq> 0
      | JStr s \<Rightarrow> s \<noteq> []
      | JList xs \<Rightarrow> xs \<noteq> []
      | JDict kvs \<Rightarrow> kvs \<noteq> [])"

text \<open>\<^verbatim>\<open>str(n)\<close> for a non-negative integer, as the f-strings \<^verbatim>\<open>f"node{i+1}"\<close> use it.\<close>

definition digit_char :: "nat \<Rightarrow> char" where
  "digit_char d = ''0123456789'' ! d"

fun str_nat :: "nat \<Rightarrow> string" where
  "str_nat n = (if n < 10 then [digit_char n] else str_nat (n div 10) @ [digit_char (n mod 10)])"

declare str_nat.simps [simp del]

section \<open>\<^verbatim>\<open>validate_cfg\<close>\<close>

text \<open>\<^verbatim>\<open>if k not in d: d[k] = v\<close>\<close>

definition ensure_key :: "string \<Rightarrow> json \<Rightarrow> json \<Rightarrow> error + json" where
  "ensure_key k v d =
     bind_r (py_contains k d) (\<lambda>present. if present then Inr d else py_setitem d k v)"

text \<open>The body of the loop over \<^verbatim>\<open>enumerate(cfg_data["nodes"])\<close>.\<close>

definition validate_node :: "nat \<Rightarrow> json \<Rightarrow> error + json" where
  "validate_node i node =
     bind_r (ensure_key ''id'' (JStr (''node'' @ str_nat (i + 1))) node) (\<lambda>n1.
     bind_r (ensure_key ''type'' (JStr ''PROCESS'') n1) (\<lambda>n2.
     bind_r (ensure_key ''label'' (JStr (''Node '' @ str_nat (i + 1))) n2) (\<lambda>n3.
     bind_r (ensure_key ''next_nodes'' (JList []) n3) (\<lambda>n4.
     ensure_key ''condition'' JNull n4))))"

fun validate_nodes :: "nat \<Rightarrow> json list \<Rightarrow> error + json list" where
  "validate_nodes i [] = Inr []"
| "validate_nodes i (node # rest) =
     bind_r (validate_node i node) (\<lambda>node'.
     bind_r (validate_nodes (Suc i) rest) (\<lambda>rest'. Inr (node' # rest')))"

text \<open>The body of the loop over \<^verbatim>\<open>cfg_data["edges"]\<close>.\<close>

definition validate_edge :: "json \<Rightarrow> error + json" where
  "validate_edge edge =
     bind_r (ensure_key ''from'' (JStr '''') edge) (\<lambda>e1.
     bind_r (ensure_key ''to'' (JStr '''') e1) (\<lambda>e2.
     ensure_key ''label'' (JStr '''') e2))"

fun validate_edges :: "json list \<Rightarrow> error + json list" where
  "validate_edges [] = Inr []"
| "validate_edges (edge # rest) =
     bind_r (validate_edge edge) (\<lambda>edge'.
     bind_r (validate_edges rest) (\<lambda>rest'. Inr (edge' # rest')))"

text \<open>The comprehension \<^verbatim>\<open>[e for e in cfg_data["edges"] if e.get("from") and e.get("to")]\<close>;
  \<^verbatim>\<open>and\<close> evaluates its second operand only when the first is true.\<close>

definition edge_kept :: "json \<Rightarrow> error + bool" where
  "edge_kept e =
     bind_r (py_get e ''from'') (\<lambda>f.
       if truthy f then bind_r (py_get e ''to'') (\<lambda>t. Inr (truthy t)) else Inr False)"

fun filter_edges :: "json list \<Rightarrow> error + json list" where
  "filter_edges [] = Inr []"
| "filter_edges (e # rest) =
     bind_r (edge_kept e) (\<lambda>keep.
     bind_r (filter_edges rest) (\<lambda>rest'. Inr (if keep then e # rest' else rest')))"

text \<open>
  A loop mutates the dictionaries that are elements of a list in place; iterating over a
  dictionary or a string yields fresh strings, which cannot be changed, so such a
  container is left as it is when the loop ends without an error.
\<close>

definition after_loop :: "json \<Rightarrow> json list \<Rightarrow> json" where
  "after_loop container items = (case container of JList _ \<Rightarrow> JList items | _ \<Rightarrow> container)"

definition validate_cfg :: "json \<Rightarrow> error + json" where
  "validate_cfg cfg_data =
     bind_r (ensure_key ''nodes'' (JList []) cfg_data) (\<lambda>d1.
     bind_r (ensure_key ''edges'' (JList []) d1) (\<lambda>d2.
     bind_r (ensure_key ''complexity'' (JInt 1) d2) (\<lambda>d3.
     bind_r (ensure_key ''num_paths'' (JInt 1) d3) (\<lambda>d4.
     bind_r (ensure_key ''nesting_depth'' (JInt 0) d4) (\<lambda>d5.
     bind_r (py_getitem d5 ''nodes'') (\<lambda>nodes.
     bind_r (py_iter nodes) (\<lambda>node_items.
     bind_r (validate_nodes 0 node_items) (\<lambda>node_items'.
     bind_r (py_setitem d5 ''nodes'' (after_loop nodes node_items')) (\<lambda>d6.
     bind_r (py_getitem d6 ''edges'') (\<lambda>edges.
     bind_r (py_iter edges) (\<lambda>edge_items.
     bind_r (validate_edges edge_items) (\<lambda>edge_items'.
     bind_r (py_iter (after_loop edges edge_items')) (\<lambda>edge_items''.
     bind_r (filter_edges edge_items'') (\<lambda>kept.
     py_setitem d6 ''edges'' (JList kept)))))))))))))))"

section \<open>The typed graph entity and its assembly\<close>

text \<open>
  The dataclasses \<^verbatim>\<open>CFGNode\<close> and \<^verbatim>\<open>CFG\<close>. A dataclass does not check the types of
  its arguments, so a field holds whatever value the dictionary had.
\<close>

record CFGNode =
  node_id :: json
  node_type :: json
  label :: json
  next_nodes :: json
  condition :: json

record CFG =
  nodes :: "CFGNode list"
  edges :: json
  complexity :: json
  num_paths :: json
  nesting_depth :: json

definition node_fields :: "string list" where
  "node_fields = [''id'', ''type'', ''label'', ''next_nodes'', ''condition'']"

definition the_default :: "json \<Rightarrow> json option \<Rightarrow> json" where
  "the_default d v = (case v of None \<Rightarrow> d | Some x \<Rightarrow> x)"






section \<open>\<^verbatim>\<open>cache.py\<close>: normalisation and key derivation\<close>















text \<open>\<^verbatim>\<open>sep.join(parts)\<close>\<close>

fun join :: "string \<Rightarrow> string list \<Rightarrow> string" where
  "join sep [] = []"
| "join sep [x] = x"
| "join sep (x # y # ys) = x @ sep @ join sep (y # ys)"

text \<open>The string that \<^verbatim>\<open>generate_cache_key\<close> hashes, and the key. The digest
  (\<^verbatim>\<open>hashlib.sha256(...).hexdigest()\<close> of the UTF-8 encoding) is a parameter.\<close>

definition combined :: "string \<Rightarrow> string list \<Rightarrow> string" where
  "combined call_type content_parts = call_type @ ''||'' @ join ''||'' content_parts"

definition generate_cache_key :: "(string \<Rightarrow> string) \<Rightarrow> string \<Rightarrow> string list \<Rightarrow> string" where
  "generate_cache_key sha256_hex call_type content_parts =
     sha256_hex (combined call_type content_parts)"

section \<open>\<^verbatim>\<open>cache.py\<close>: the store\<close>

text \<open>
  Modelled from the spec: the table \<^verbatim>\<open>ai_cache\<close> is declared in \<^verbatim>\<open>database.py\<close>, which
  is not among the sources. The spec gives its layout: one table keyed by
  \<^verbatim>\<open>(call_type, content_hash)\<close> with the columns below, so that the statement
  \<^verbatim>\<open>INSERT OR REPLACE\<close> removes the row that has the same key before it inserts.

  A timestamp is an integer number of microseconds: the code compares ISO-8601 texts of
  \<^verbatim>\<open>datetime.now()\<close>, whose order is the chronological one. The stored column is the
  text of \<^verbatim>\<open>json.dumps\<close>, read back with \<^verbatim>\<open>json.loads\<close>; the model keeps the value.
  Faults of the storage layer, which the code turns into \<^verbatim>\<open>None\<close> or \<^verbatim>\<open>0\<close>, are not
  part of the model.
\<close>

record cache_row =
  row_id :: nat
  call_type :: string
  content_hash :: string
  response :: json
  created_at :: int
  expires_at :: int
  hit_count :: int

type_synonym ai_cache = "cache_row list"

text \<open>\<^verbatim>\<open>timedelta(hours=h)\<close> in microseconds.\<close>

definition hours :: "int \<Rightarrow> int" where
  "hours h = h * 3600000000"

definition has_key :: "string \<Rightarrow> string \<Rightarrow> cache_row \<Rightarrow> bool" where
  "has_key ct h r = (call_type r = ct \<and> content_hash r = h)"

text \<open>
  \<^verbatim>\<open>get_cached_response\<close>: the first row with the key and \<^verbatim>\<open>expires_at > now\<close>; its
  counter is incremented through its \<^verbatim>\<open>id\<close>. The result is the stored value or
  \<^verbatim>\<open>None\<close> (\<^const>\<open>JNull\<close>), with the table after the call.
\<close>

definition get_cached_response :: "ai_cache \<Rightarrow> string \<Rightarrow> string \<Rightarrow> int \<Rightarrow> json \<times> ai_cache" where
  "get_cached_response tbl ct h now =
     (case find (\<lambda>r. has_key ct h r \<and> expires_at r > now) tbl of
        None \<Rightarrow> (JNull, tbl)
      | Some row \<Rightarrow>
          (response row,
           map (\<lambda>r. if row_id r = row_id row then r\<lparr>hit_count := hit_count r + 1\<rparr> else r) tbl))"

text \<open>
  \<^verbatim>\<open>set_cached_response\<close>: \<^verbatim>\<open>datetime.now()\<close> is read twice, first for the expiry
  (\<open>now_exp\<close>), then for \<^verbatim>\<open>created_at\<close> (\<open>now_created\<close>). The new row gets an
  \<^verbatim>\<open>id\<close> above those of the rows that remain.
\<close>

definition fresh_id :: "ai_cache \<Rightarrow> nat" where
  "fresh_id tbl = Suc (fold max (map row_id tbl) 0)"

definition set_cached_response ::
  "int \<Rightarrow> ai_cache \<Rightarrow> string \<Rightarrow> string \<Rightarrow> json \<Rightarrow> int \<Rightarrow> int \<Rightarrow> ai_cache" where
  "set_cached_response ttl tbl ct h resp now_exp now_created =
     (let rest = filter (\<lambda>r. \<not> has_key ct h r) tbl
      in rest @ [\<lparr> row_id = fresh_id rest, call_type = ct, content_hash = h, response = resp,
                   created_at = now_created, expires_at = now_exp + hours ttl,
                   hit_count = 0 \<rparr>])"





text \<open>\<^verbatim>\<open>cleanup_expired_cache\<close>: the number of rows deleted and the table left.\<close>

definition cleanup_expired_cache :: "ai_cache \<Rightarrow> int \<Rightarrow> nat \<times> ai_cache" where
  "cleanup_expired_cache tbl now =
     (length (filter (\<lambda>r. expires_at r \<le> now) tbl),
      filter (\<lambda>r. \<not> expires_at r \<le> now) tbl)"

section \<open>\<^verbatim>\<open>pseudocode_to_cfg\<close> and \<^verbatim>\<open>flowchart_to_cfg\<close>\<close>

text \<open>
  What the two functions take from outside the sources: the digest, the prompt text of
  \<^verbatim>\<open>prompts\<close>, the model call (\<^verbatim>\<open>generate_content\<close> and the \<^verbatim>\<open>text\<close> of its response:
  the text, or the error raised), the same for an image (after \<^verbatim>\<open>base64.b64decode\<close> and
  \<^verbatim>\<open>Image.open\<close>), \<^verbatim>\<open>utils.parse_json_response\<close>, and \<^verbatim>\<open>CACHE_TTL_HOURS\<close>.
\<close>

record collaborators =
  sha256_hex :: "string \<Rightarrow> string"
  pseudocode_prompt :: string
  generate_content :: "string \<Rightarrow> error + string"
  generate_content_image :: "string \<Rightarrow> error + string"
  parse_json_response :: "string \<Rightarrow> error + json"
  cache_ttl_hours :: int






section \<open>Graph records as the data model describes them\<close>

text \<open>
  Reading a record: the value of a key (as \<^verbatim>\<open>dict.get\<close> returns it), the key's entry, the
  keys, and the elements of a list.
\<close>

definition lookup :: "json \<Rightarrow> string \<Rightarrow> json option" where
  "lookup x k = (case x of JDict kvs \<Rightarrow> map_of kvs k | _ \<Rightarrow> None)"

definition field :: "json \<Rightarrow> string \<Rightarrow> json" where
  "field x k = the_default JNull (lookup x k)"


definition items :: "json \<Rightarrow> json list" where
  "items x = (case x of JList xs \<Rightarrow> xs | _ \<Rightarrow> [])"

definition is_dict :: "json \<Rightarrow> bool" where
  "is_dict x = (case x of JDict _ \<Rightarrow> True | _ \<Rightarrow> False)"

definition is_list :: "json \<Rightarrow> bool" where
  "is_list x = (case x of JList _ \<Rightarrow> True | _ \<Rightarrow> False)"

definition has_fields :: "string list \<Rightarrow> json \<Rightarrow> bool" where
  "has_fields ks x = (is_dict x \<and> list_all (\<lambda>k. lookup x k \<noteq> None) ks)"

text \<open>
  A raw partial graph record: a dictionary in which \<^verbatim>\<open>nodes\<close> and \<^verbatim>\<open>edges\<close>, when
  present, are lists of dictionaries. Any field of the record, of a node or of an edge may
  be absent.
\<close>

definition list_of_dicts :: "json option \<Rightarrow> bool" where
  "list_of_dicts v = (case v of None \<Rightarrow> True | Some x \<Rightarrow> is_list x \<and> list_all is_dict (items x))"

definition partial_graph_record :: "json \<Rightarrow> bool" where
  "partial_graph_record raw =
     (is_dict raw \<and> list_of_dicts (lookup raw ''nodes'') \<and> list_of_dicts (lookup raw ''edges''))"

text \<open>
  The invariants of a validated record: the five fields of the record are present, every
  node has its five fields, every edge has \<^verbatim>\<open>from\<close>, \<^verbatim>\<open>to\<close> and \<^verbatim>\<open>label\<close>, and
  \<^verbatim>\<open>from\<close> and \<^verbatim>\<open>to\<close> are not empty (a string is true exactly when it is not empty).
\<close>

definition valid_edge :: "json \<Rightarrow> bool" where
  "valid_edge e =
     (has_fields [''from'', ''to'', ''label''] e \<and> truthy (field e ''from'') \<and> truthy (field e ''to''))"

definition validated :: "json \<Rightarrow> bool" where
  "validated r =
     (has_fields [''nodes'', ''edges'', ''complexity'', ''num_paths'', ''nesting_depth''] r
      \<and> is_list (field r ''nodes'') \<and> list_all (has_fields node_fields) (items (field r ''nodes''))
      \<and> is_list (field r ''edges'') \<and> list_all valid_edge (items (field r ''edges'')))"






text \<open>What \<^verbatim>\<open>validate_cfg\<close> does to a dictionary, written without the error cases:
  a missing key is appended with its default.\<close>

definition setdefault :: "string \<Rightarrow> json \<Rightarrow> (string \<times> json) list \<Rightarrow> (string \<times> json) list" where
  "setdefault k v kvs = (if k \<in> set (map fst kvs) then kvs else kvs @ [(k, v)])"

definition fill_node :: "nat \<Rightarrow> json \<Rightarrow> json" where
  "fill_node i n =
     JDict (setdefault ''condition'' JNull
           (setdefault ''next_nodes'' (JList [])
           (setdefault ''label'' (JStr (''Node '' @ str_nat (i + 1)))
           (setdefault ''type'' (JStr ''PROCESS'')
           (setdefault ''id'' (JStr (''node'' @ str_nat (i + 1))) (case n of JDict kvs \<Rightarrow> kvs | _ \<Rightarrow> []))))))"

definition fill_edge :: "json \<Rightarrow> json" where
  "fill_edge e =
     JDict (setdefault ''label'' (JStr [])
           (setdefault ''to'' (JStr [])
           (setdefault ''from'' (JStr []) (case e of JDict kvs \<Rightarrow> kvs | _ \<Rightarrow> []))))"

definition keeps :: "json \<Rightarrow> bool" where
  "keeps e = (truthy (field e ''from'') \<and> truthy (field e ''to''))"

definition with_defaults :: "json \<Rightarrow> (string \<times> json) list" where
  "with_defaults raw =
     setdefault ''nesting_depth'' (JInt 0)
    (setdefault ''num_paths'' (JInt 1)
    (setdefault ''complexity'' (JInt 1)
    (setdefault ''edges'' (JList [])
    (setdefault ''nodes'' (JList []) (case raw of JDict kvs \<Rightarrow> kvs | _ \<Rightarrow> [])))))"

definition fill_nodes :: "json list \<Rightarrow> json list" where
  "fill_nodes ns = map (\<lambda>p. fill_node (fst p) (snd p)) (enumerate 0 ns)"

definition fill_record :: "json \<Rightarrow> json" where
  "fill_record raw =
     (let d = with_defaults raw;
          ns = items (field (JDict d) ''nodes'');
          es = items (field (JDict d) ''edges'')
      in JDict (dict_set ''edges'' (JList (filter keeps (map fill_edge es)))
               (dict_set ''nodes'' (JList (fill_nodes ns)) d)))"

section \<open>Properties of the cache store\<close>

subsection \<open>Statistics\<close>




subsection \<open>Writing and reading back\<close>

lemma row_id_le_fold_max: "r \<in> set rows \<Longrightarrow> row_id r \<le> fold max (map row_id rows) 0"
proof -
  assume "r \<in> set rows"
  then have "row_id r \<in> set (0 # map row_id rows)" by simp
  then have "row_id r \<le> Max (set (0 # map row_id rows))" by (intro Max_ge) auto
  then show ?thesis by (simp only: Max.set_eq_fold)
qed

lemma row_id_lt_fresh_id: "r \<in> set rows \<Longrightarrow> row_id r < fresh_id rows"
  using row_id_le_fold_max [of r rows] by (simp add: fresh_id_def)

lemma find_append_none: "\<forall>x \<in> set xs. \<not> P x \<Longrightarrow> find P (xs @ ys) = find P ys"
  by (induction xs) auto

text \<open>
  Claim C7. After \<^verbatim>\<open>set_cached_response\<close> for a key, a \<^verbatim>\<open>get_cached_response\<close> for the same
  key before the expiry time returns the stored record; the key has one row, whose hit
  count is 0 after the write and 1 after the read; the rows of other keys are as before.
\<close>

theorem set_then_get_returns_record:
  assumes window: "now_get < now_exp + hours ttl"
  shows "fst (get_cached_response (set_cached_response ttl tbl ct h resp now_exp now_created) ct h now_get) = resp
    \<and> map hit_count (filter (has_key ct h) (set_cached_response ttl tbl ct h resp now_exp now_created)) = [0]
    \<and> map hit_count (filter (has_key ct h)
         (snd (get_cached_response (set_cached_response ttl tbl ct h resp now_exp now_created) ct h now_get))) = [1]
    \<and> filter (\<lambda>r. \<not> has_key ct h r)
         (snd (get_cached_response (set_cached_response ttl tbl ct h resp now_exp now_created) ct h now_get))
       = filter (\<lambda>r. \<not> has_key ct h r) tbl"
proof -
  define rest where "rest = filter (\<lambda>r. \<not> has_key ct h r) tbl"
  define new where "new = \<lparr> row_id = fresh_id rest, call_type = ct, content_hash = h, response = resp,
                   created_at = now_created, expires_at = now_exp + hours ttl, hit_count = 0 \<rparr>"
  have tbl1: "set_cached_response ttl tbl ct h resp now_exp now_created = rest @ [new]"
    by (simp add: set_cached_response_def rest_def new_def Let_def)
  have nokey: "\<forall>r \<in> set rest. \<not> has_key ct h r" by (simp add: rest_def)
  have newkey: "has_key ct h new" by (simp add: new_def has_key_def)
  have found: "find (\<lambda>r. has_key ct h r \<and> expires_at r > now_get) (rest @ [new]) = Some new"
    using nokey newkey window by (subst find_append_none) (auto simp: new_def)
  have ids: "\<forall>r \<in> set rest. row_id r \<noteq> row_id new"
    by (fastforce simp: new_def dest: row_id_lt_fresh_id)
  have upd: "map (\<lambda>r. if row_id r = row_id new then r\<lparr>hit_count := hit_count r + 1\<rparr> else r) rest = rest"
    using ids by (induction rest) auto
  have get: "get_cached_response (rest @ [new]) ct h now_get = (resp, rest @ [new\<lparr>hit_count := 1\<rparr>])"
    using upd by (simp add: get_cached_response_def found) (simp add: new_def)
  have f1: "filter (has_key ct h) rest = []" using nokey by (induction rest) auto
  have f2: "filter (\<lambda>r. \<not> has_key ct h r) rest = rest" using nokey by (induction rest) auto
  show ?thesis
    unfolding tbl1 get using newkey f1 f2
    by (simp add: rest_def [symmetric]) (simp add: new_def has_key_def)
qed

text \<open>An instance: a write at time 0 with 24 hours to live, read at time 5.\<close>

theorem set_then_get_returns_record_witness:
  "(5::int) < 0 + hours 24
   \<and> fst (get_cached_response (set_cached_response 24 [] ''pseudocode_to_cfg'' ''k'' (JDict []) 0 1)
          ''pseudocode_to_cfg'' ''k'' 5) = JDict []
   \<and> map hit_count (filter (has_key ''pseudocode_to_cfg'' ''k'')
         (snd (get_cached_response (set_cached_response 24 [] ''pseudocode_to_cfg'' ''k'' (JDict []) 0 1)
            ''pseudocode_to_cfg'' ''k'' 5))) = [1]"
proof -
  have h: "(5::int) < 0 + hours 24" by (simp add: hours_def)
  show ?thesis
    using h set_then_get_returns_record [OF h, of "[]" "''pseudocode_to_cfg''" "''k''" "JDict []" 1]
    by simp
qed

subsection \<open>Expiry\<close>

lemma find_none_unlive:
  "\<forall>r \<in> set tbl. has_key ct h r \<longrightarrow> expires_at r \<le> now
   \<Longrightarrow> find (\<lambda>r. has_key ct h r \<and> expires_at r > now) tbl = None"
  by (induction tbl) auto

text \<open>
  Claim C8. When every row of a key has its expiry time at or before the current time,
  \<^verbatim>\<open>get_cached_response\<close> returns \<^verbatim>\<open>None\<close> and leaves the table, with these rows, as it
  is. \<^verbatim>\<open>cleanup_expired_cache\<close> removes exactly the rows whose expiry time is at or before
  the current time and returns their number; run again at the same time on the table it
  left, it removes nothing and returns 0.
\<close>

theorem expired_entries_absent_until_swept:
  "((\<forall>r \<in> set tbl. has_key ct h r \<longrightarrow> expires_at r \<le> now)
      \<longrightarrow> get_cached_response tbl ct h now = (JNull, tbl))
   \<and> set (snd (cleanup_expired_cache tbl now)) = set tbl - {r. expires_at r \<le> now}
   \<and> snd (cleanup_expired_cache tbl now) = filter (\<lambda>r. now < expires_at r) tbl
   \<and> fst (cleanup_expired_cache tbl now) = length (filter (\<lambda>r. expires_at r \<le> now) tbl)
   \<and> fst (cleanup_expired_cache tbl now) + length (snd (cleanup_expired_cache tbl now)) = length tbl
   \<and> cleanup_expired_cache (snd (cleanup_expired_cache tbl now)) now
       = (0, snd (cleanup_expired_cache tbl now))"
proof (intro conjI)
  show "(\<forall>r \<in> set tbl. has_key ct h r \<longrightarrow> expires_at r \<le> now)
     \<longrightarrow> get_cached_response tbl ct h now = (JNull, tbl)"
    by (simp add: get_cached_response_def find_none_unlive)
  show "set (snd (cleanup_expired_cache tbl now)) = set tbl - {r. expires_at r \<le> now}"
    by (auto simp: cleanup_expired_cache_def)
  show "snd (cleanup_expired_cache tbl now) = filter (\<lambda>r. now < expires_at r) tbl"
    by (simp add: cleanup_expired_cache_def not_le)
  show "fst (cleanup_expired_cache tbl now) = length (filter (\<lambda>r. expires_at r \<le> now) tbl)"
    by (simp add: cleanup_expired_cache_def)
  show "fst (cleanup_expired_cache tbl now) + length (snd (cleanup_expired_cache tbl now)) = length tbl"
    using sum_length_filter_compl [of "\<lambda>r. expires_at r \<le> now" tbl]
    by (simp add: cleanup_expired_cache_def)
  show "cleanup_expired_cache (snd (cleanup_expired_cache tbl now)) now = (0, snd (cleanup_expired_cache tbl now))"
    by (simp add: cleanup_expired_cache_def)
qed

text \<open>An instance: one expired and one live row at time 10.\<close>

definition expired_row :: cache_row where
  "expired_row = \<lparr> row_id = 1, call_type = ''pseudocode_to_cfg'', content_hash = ''k'',
                   response = JDict [], created_at = 0, expires_at = 5, hit_count = 3 \<rparr>"

definition live_row :: cache_row where
  "live_row = \<lparr> row_id = 2, call_type = ''flowchart_to_cfg'', content_hash = ''m'',
                response = JDict [], created_at = 8, expires_at = 20, hit_count = 0 \<rparr>"

theorem expired_entries_absent_until_swept_witness:
  "expires_at expired_row \<le> 10
   \<and> get_cached_response [expired_row, live_row] ''pseudocode_to_cfg'' ''k'' 10
       = (JNull, [expired_row, live_row])
   \<and> cleanup_expired_cache [expired_row, live_row] 10 = (1, [live_row])
   \<and> cleanup_expired_cache [live_row] 10 = (0, [live_row])"
  using expired_entries_absent_until_swept
          [of "[expired_row, live_row]" "''pseudocode_to_cfg''" "''k''" 10]
  by (simp add: expired_row_def live_row_def has_key_def cleanup_expired_cache_def)

subsection \<open>Keys\<close>

text \<open>
  Claim C10. The key is the digest of the call type and the parts joined by \<^verbatim>\<open>"||"\<close>, so
  three different arguments give the same joined text \<^verbatim>\<open>"a||b||c"\<close> and, whatever the digest
  function is, the same key.
\<close>

theorem cache_key_not_injective:
  "combined ''a'' [''b||c''] = ''a||b||c''
   \<and> combined ''a||b'' [''c''] = ''a||b||c''
   \<and> combined ''a'' [''b'', ''c''] = ''a||b||c''
   \<and> generate_cache_key sha256 ''a'' [''b||c''] = generate_cache_key sha256 ''a||b'' [''c'']
   \<and> generate_cache_key sha256 ''a'' [''b||c''] = generate_cache_key sha256 ''a'' [''b'', ''c'']
   \<and> (''a'', [''b||c'']) \<noteq> (''a||b'', [''c''])
   \<and> (''a'', [''b||c'']) \<noteq> (''a'', [''b'', ''c''])
   \<and> (''a||b'', [''c'']) \<noteq> (''a'', [''b'', ''c''])"
  by (simp add: generate_cache_key_def combined_def)

section \<open>\<^verbatim>\<open>validate_cfg\<close> on partial graph records\<close>

lemma bind_r_simps [simp]:
  "bind_r (Inr x) f = f x" "bind_r (Inl e) f = Inl e"
  by (simp_all add: bind_r_def)

lemma dict_set_absent: "k \<notin> set (map fst kvs) \<Longrightarrow> dict_set k v kvs = kvs @ [(k, v)]"
  by (induction kvs) auto

lemma dict_set_same: "map_of kvs k = Some v \<Longrightarrow> dict_set k v kvs = kvs"
  by (induction kvs) (auto split: if_splits)

lemma map_of_dict_set: "map_of (dict_set k v kvs) = (map_of kvs)(k \<mapsto> v)"
  by (induction kvs) (auto simp: fun_eq_iff)

lemma keys_dict_set: "set (map fst (dict_set k v kvs)) = insert k (set (map fst kvs))"
  by (induction kvs) auto

lemma ensure_key_dict: "ensure_key k v (JDict kvs) = Inr (JDict (setdefault k v kvs))"
  by (simp add: ensure_key_def py_contains_def py_setitem_def setdefault_def dict_set_absent)

lemma map_of_setdefault:
  "map_of (setdefault k v kvs) k' = (if k' = k \<and> map_of kvs k = None then Some v else map_of kvs k')"
proof (cases "k \<in> set (map fst kvs)")
  case True
  then have "map_of kvs k \<noteq> None" by (simp add: map_of_eq_None_iff)
  with True show ?thesis by (simp add: setdefault_def)
next
  case False
  then have "map_of kvs k = None" by (simp add: map_of_eq_None_iff)
  with False show ?thesis by (simp add: setdefault_def map_add_def split: option.splits)
qed

lemma keys_setdefault: "set (map fst (setdefault k v kvs)) = insert k (set (map fst kvs))"
  by (auto simp: setdefault_def)

lemma validate_node_dict: "validate_node i (JDict kvs) = Inr (fill_node i (JDict kvs))"
  by (simp add: validate_node_def ensure_key_dict fill_node_def)

lemma validate_edge_dict: "validate_edge (JDict kvs) = Inr (fill_edge (JDict kvs))"
  by (simp add: validate_edge_def ensure_key_dict fill_edge_def)

lemma is_dictE: "is_dict x \<Longrightarrow> (\<And>kvs. x = JDict kvs \<Longrightarrow> P) \<Longrightarrow> P"
  by (cases x) (auto simp: is_dict_def)

lemma is_listE: "is_list x \<Longrightarrow> (\<And>xs. x = JList xs \<Longrightarrow> P) \<Longrightarrow> P"
  by (cases x) (auto simp: is_list_def)

lemma validate_nodes_dicts:
  "list_all is_dict ns \<Longrightarrow>
   validate_nodes i ns = Inr (map (\<lambda>p. fill_node (fst p) (snd p)) (enumerate i ns))"
proof (induction ns arbitrary: i)
  case Nil
  then show ?case by simp
next
  case (Cons n ns)
  then obtain kvs where "n = JDict kvs" by (auto elim: is_dictE)
  with Cons show ?case by (simp add: validate_node_dict)
qed

lemma validate_edges_dicts:
  "list_all is_dict es \<Longrightarrow> validate_edges es = Inr (map fill_edge es)"
proof (induction es)
  case Nil
  then show ?case by simp
next
  case (Cons e es)
  then obtain kvs where "e = JDict kvs" by (auto elim: is_dictE)
  with Cons show ?case by (simp add: validate_edge_dict)
qed

lemma edge_kept_dict: "edge_kept (JDict kvs) = Inr (keeps (JDict kvs))"
  by (simp add: edge_kept_def py_get_def keeps_def field_def lookup_def the_default_def
           split: option.splits)

lemma filter_edges_dicts:
  "list_all is_dict es \<Longrightarrow> filter_edges es = Inr (filter keeps es)"
proof (induction es)
  case Nil
  then show ?case by simp
next
  case (Cons e es)
  then obtain kvs where "e = JDict kvs" by (auto elim: is_dictE)
  with Cons show ?case by (simp add: edge_kept_dict)
qed

lemma is_dict_fill_edge [simp]: "is_dict (fill_edge e)"
  by (simp add: fill_edge_def is_dict_def)

lemma is_dict_fill_node [simp]: "is_dict (fill_node i n)"
  by (simp add: fill_node_def is_dict_def)


lemma lookup_with_defaults:
  "map_of (with_defaults (JDict kvs)) k =
     (case map_of kvs k of
        Some v \<Rightarrow> Some v
      | None \<Rightarrow>
          if k = ''nodes'' \<or> k = ''edges'' then Some (JList [])
          else if k = ''complexity'' \<or> k = ''num_paths'' then Some (JInt 1)
          else if k = ''nesting_depth'' then Some (JInt 0)
          else None)"
  by (simp add: with_defaults_def map_of_setdefault split: option.splits)

lemma validate_cfg_partial:
  assumes "partial_graph_record raw"
  shows "validate_cfg raw = Inr (fill_record raw)"
proof -
  from assms obtain kvs where raw: "raw = JDict kvs"
    by (auto simp: partial_graph_record_def elim: is_dictE)
  define d where "d = with_defaults raw"
  have pre: "bind_r (ensure_key ''nodes'' (JList []) raw) (\<lambda>d1.
     bind_r (ensure_key ''edges'' (JList []) d1) (\<lambda>d2.
     bind_r (ensure_key ''complexity'' (JInt 1) d2) (\<lambda>d3.
     bind_r (ensure_key ''num_paths'' (JInt 1) d3) (\<lambda>d4.
     bind_r (ensure_key ''nesting_depth'' (JInt 0) d4) f)))) = f (JDict d)" for f
    by (simp add: raw ensure_key_dict d_def with_defaults_def)
  obtain ns where ns: "map_of d ''nodes'' = Some (JList ns)" and nsd: "list_all is_dict ns"
    using assms
    by (auto simp: raw d_def lookup_with_defaults partial_graph_record_def list_of_dicts_def
          lookup_def items_def split: option.splits elim!: is_listE)
  obtain es where es: "map_of d ''edges'' = Some (JList es)" and esd: "list_all is_dict es"
    using assms
    by (auto simp: raw d_def lookup_with_defaults partial_graph_record_def list_of_dicts_def
          lookup_def items_def split: option.splits elim!: is_listE)
  have esd': "list_all is_dict (map fill_edge es)"
    by (simp add: list_all_iff)
  have "validate_cfg raw =
     Inr (JDict (dict_set ''edges'' (JList (filter keeps (map fill_edge es)))
               (dict_set ''nodes'' (JList (fill_nodes ns)) d)))"
    unfolding validate_cfg_def pre
    by (simp add: py_getitem_def ns es py_iter_def validate_nodes_dicts [OF nsd] py_setitem_def
          after_loop_def map_of_dict_set validate_edges_dicts [OF esd] filter_edges_dicts [OF esd']
          fill_nodes_def)
  then show ?thesis
    by (simp add: fill_record_def d_def [symmetric] field_def lookup_def ns es items_def
          the_default_def)
qed


lemma map_of_fill_record:
  "lookup (fill_record raw) k =
     (if k = ''edges'' then Some (JList (filter keeps (map fill_edge (items (field (JDict (with_defaults raw)) ''edges'')))))
      else if k = ''nodes'' then Some (JList (fill_nodes (items (field (JDict (with_defaults raw)) ''nodes''))))
      else map_of (with_defaults raw) k)"
  by (simp add: fill_record_def Let_def lookup_def map_of_dict_set)

lemma has_fields_iff: "has_fields ks x = (is_dict x \<and> (\<forall>k \<in> set ks. lookup x k \<noteq> None))"
  by (simp add: has_fields_def list_all_iff)



lemma with_defaults_keys:
  "k \<in> set [''nodes'', ''edges'', ''complexity'', ''num_paths'', ''nesting_depth'']
   \<Longrightarrow> map_of (with_defaults raw) k \<noteq> None"
  by (auto simp: with_defaults_def map_of_setdefault)


lemma length_fill_nodes [simp]: "length (fill_nodes ns) = length ns"
  by (simp add: fill_nodes_def)

lemma nth_fill_nodes: "i < length ns \<Longrightarrow> fill_nodes ns ! i = fill_node i (ns ! i)"
  by (simp add: fill_nodes_def nth_enumerate_eq)

lemma field_nodes_with_defaults:
  "partial_graph_record raw \<Longrightarrow> field (JDict (with_defaults raw)) ''nodes'' = JList (items (field raw ''nodes''))"
  by (auto simp: partial_graph_record_def list_of_dicts_def field_def lookup_def
        lookup_with_defaults the_default_def items_def
        split: option.splits elim!: is_dictE is_listE)

lemma field_edges_with_defaults:
  "partial_graph_record raw \<Longrightarrow> field (JDict (with_defaults raw)) ''edges'' = JList (items (field raw ''edges''))"
  by (auto simp: partial_graph_record_def list_of_dicts_def field_def lookup_def
        lookup_with_defaults the_default_def items_def
        split: option.splits elim!: is_dictE is_listE)

lemma nodes_fill_record:
  "partial_graph_record raw \<Longrightarrow>
   items (field (fill_record raw) ''nodes'') = fill_nodes (items (field raw ''nodes''))"
proof -
  assume p: "partial_graph_record raw"
  have "field (fill_record raw) ''nodes''
          = JList (fill_nodes (items (field (JDict (with_defaults raw)) ''nodes'')))"
    by (simp add: field_def map_of_fill_record the_default_def)
  then show ?thesis
    by (simp add: field_nodes_with_defaults [OF p]) (simp add: items_def)
qed

lemma edges_fill_record:
  "partial_graph_record raw \<Longrightarrow>
   items (field (fill_record raw) ''edges'') = filter keeps (map fill_edge (items (field raw ''edges'')))"
proof -
  assume p: "partial_graph_record raw"
  have "field (fill_record raw) ''edges''
          = JList (filter keeps (map fill_edge (items (field (JDict (with_defaults raw)) ''edges''))))"
    by (simp add: field_def map_of_fill_record the_default_def)
  then show ?thesis
    by (simp add: field_edges_with_defaults [OF p]) (simp add: items_def)
qed

lemma default_id:
  "lookup n ''id'' = None \<Longrightarrow> lookup (fill_node i n) ''id'' = Some (JStr (''node'' @ str_nat (i + 1)))"
  by (cases n) (simp_all add: lookup_def fill_node_def map_of_setdefault)

lemma setdefault_dict_set:
  "e \<in> set (map fst kvs) \<Longrightarrow> setdefault k v (dict_set e x kvs) = dict_set e x (setdefault k v kvs)"
proof -
  assume e: "e \<in> set (map fst kvs)"
  have app: "dict_set e x (kvs @ ys) = dict_set e x kvs @ ys" for ys
    using e by (induction kvs) auto
  show ?thesis
    by (simp add: setdefault_def keys_dict_set insert_absorb [OF e] app del: set_map)
qed

lemma dict_set_twice: "dict_set a x (dict_set a z m) = dict_set a x m"
  by (induction m) auto

lemma dict_set_absorb:
  "a \<in> set (map fst m) \<Longrightarrow> dict_set a x (dict_set b y (dict_set a z m)) = dict_set a x (dict_set b y m)"
  by (induction m) (auto simp: dict_set_twice)

lemma with_defaults_dict_set:
  assumes "e \<in> set (map fst kvs)"
  shows "with_defaults (JDict (dict_set e x kvs)) = dict_set e x (with_defaults (JDict kvs))"
proof -
  have k: "e \<in> set (map fst (setdefault k v m))" if "e \<in> set (map fst m)" for k v m
    using that by (simp add: keys_setdefault del: set_map)
  show ?thesis
    unfolding with_defaults_def json.case
    by (simp only: setdefault_dict_set assms k)
qed


lemma not_keeps_missing_to: "lookup e ''to'' = None \<Longrightarrow> \<not> keeps (fill_edge e)"
  by (cases e)
     (simp_all add: keeps_def fill_edge_def field_def lookup_def map_of_setdefault the_default_def
        truthy_def)

lemma lookup_key: "lookup (JDict kvs) k = Some v \<Longrightarrow> k \<in> set (map fst kvs)"
  by (auto simp: lookup_def dest: map_of_SomeD intro: rev_image_eqI)

lemma partial_graph_record_drop_edge:
  assumes "partial_graph_record (JDict kvs)"
    and "lookup (JDict kvs) ''edges'' = Some (JList (es1 @ e # es2))"
  shows "partial_graph_record (JDict (dict_set ''edges'' (JList (es1 @ es2)) kvs))"
  using assms
  by (simp add: partial_graph_record_def lookup_def map_of_dict_set list_of_dicts_def is_dict_def
        is_list_def items_def)

lemma fill_record_drop_edge:
  assumes p: "partial_graph_record (JDict kvs)"
    and es: "lookup (JDict kvs) ''edges'' = Some (JList (es1 @ e # es2))"
    and e: "lookup e ''to'' = None"
  shows "fill_record (JDict (dict_set ''edges'' (JList (es1 @ es2)) kvs)) = fill_record (JDict kvs)"
proof -
  let ?kvs' = "dict_set ''edges'' (JList (es1 @ es2)) kvs"
  have k: "''edges'' \<in> set (map fst kvs)" using es by (rule lookup_key)
  have k5: "''edges'' \<in> set (map fst (with_defaults (JDict kvs)))"
    using with_defaults_keys [of "''edges''" "JDict kvs"]
    by (simp add: map_of_eq_None_iff)
  have wd: "with_defaults (JDict ?kvs') = dict_set ''edges'' (JList (es1 @ es2)) (with_defaults (JDict kvs))"
    using k by (rule with_defaults_dict_set)
  have n: "field (JDict (with_defaults (JDict ?kvs'))) ''nodes'' = field (JDict (with_defaults (JDict kvs))) ''nodes''"
    by (simp add: wd field_def lookup_def map_of_dict_set)
  have e1: "items (field (JDict (with_defaults (JDict ?kvs'))) ''edges'') = es1 @ es2"
    by (simp add: wd field_def lookup_def map_of_dict_set the_default_def items_def)
  have e0: "items (field (JDict kvs) ''edges'') = es1 @ e # es2"
    using es by (simp add: field_def the_default_def items_def)
  have e2: "items (field (JDict (with_defaults (JDict kvs))) ''edges'') = es1 @ e # es2"
    unfolding field_edges_with_defaults [OF p] e0 by (simp add: items_def)
  have f: "filter keeps (map fill_edge (es1 @ e # es2)) = filter keeps (map fill_edge (es1 @ es2))"
    using not_keeps_missing_to [OF e] by simp
  show ?thesis
    unfolding fill_record_def Let_def n e1 e2 f
    by (simp add: wd dict_set_absorb [OF k5])
qed

lemma fill_node_complete: "has_fields node_fields n \<Longrightarrow> fill_node i n = n"
  by (cases n)
     (auto simp: has_fields_def node_fields_def fill_node_def setdefault_def lookup_def is_dict_def
        map_of_eq_None_iff)

lemma fill_edge_complete: "has_fields [''from'', ''to'', ''label''] e \<Longrightarrow> fill_edge e = e"
  by (cases e)
     (auto simp: has_fields_def fill_edge_def setdefault_def lookup_def is_dict_def map_of_eq_None_iff)

lemma fill_nodes_complete: "list_all (has_fields node_fields) ns \<Longrightarrow> fill_nodes ns = ns"
proof -
  assume a: "list_all (has_fields node_fields) ns"
  have "map (\<lambda>p. fill_node (fst p) (snd p)) (enumerate i ns) = ns" for i
    using a by (induction ns arbitrary: i) (auto simp: fill_node_complete)
  then show ?thesis by (simp add: fill_nodes_def)
qed

lemma fill_edges_complete: "list_all valid_edge es \<Longrightarrow> filter keeps (map fill_edge es) = es"
  by (induction es) (auto simp: valid_edge_def fill_edge_complete keeps_def)


lemma with_defaults_complete:
  "has_fields [''nodes'', ''edges'', ''complexity'', ''num_paths'', ''nesting_depth''] (JDict kvs)
   \<Longrightarrow> with_defaults (JDict kvs) = kvs"
  by (auto simp: has_fields_def with_defaults_def setdefault_def lookup_def map_of_eq_None_iff)

lemma fill_record_validated: "validated r \<Longrightarrow> fill_record r = r"
proof -
  assume v: "validated r"
  then obtain kvs where r: "r = JDict kvs"
    by (auto simp: validated_def has_fields_def elim: is_dictE)
  have wd: "with_defaults r = kvs" using v by (simp add: r validated_def with_defaults_complete)
  from v obtain ns where ns: "map_of kvs ''nodes'' = Some (JList ns)"
    by (auto simp: validated_def r has_fields_def field_def lookup_def the_default_def
          split: option.splits elim!: is_listE)
  from v obtain es where es: "map_of kvs ''edges'' = Some (JList es)"
    by (auto simp: validated_def r has_fields_def field_def lookup_def the_default_def
          split: option.splits elim!: is_listE)
  have nsv: "fill_nodes ns = ns"
    using v by (intro fill_nodes_complete)
      (simp add: validated_def r field_def lookup_def ns the_default_def items_def)
  have esv: "filter keeps (map fill_edge es) = es"
    using v by (intro fill_edges_complete)
      (simp add: validated_def r field_def lookup_def es the_default_def items_def)
  have m: "map_of (dict_set ''nodes'' (JList ns) kvs) ''edges'' = Some (JList es)"
    by (simp add: map_of_dict_set es)
  show ?thesis
    unfolding fill_record_def Let_def wd
    by (simp add: r field_def lookup_def ns es the_default_def items_def nsv esv
          dict_set_same [OF ns] dict_set_same [OF es])
qed

section \<open>Properties of \<^verbatim>\<open>validate_cfg\<close>\<close>




text \<open>
  Claim C9. (1) The empty record is completed to the record with no nodes, no edges,
  complexity 1, one path and nesting depth 0. (2) In a raw partial graph record, a node
  at position \<open>i\<close> (counted from 0) that has no \<^verbatim>\<open>id\<close> is given \<^verbatim>\<open>"node"\<close> followed by
  \<open>i + 1\<close> in decimal: \<^verbatim>\<open>node1\<close> at position 0, \<^verbatim>\<open>node5\<close> at position 4. (3) An edge
  without \<^verbatim>\<open>to\<close> is dropped: the result is the one for the record without that edge,
  and when that record is already valid it is returned unchanged, all other nodes and
  edges in their order.
\<close>

theorem validate_cfg_default_filling:
  "validate_cfg (JDict [])
     = Inr (JDict [(''nodes'', JList []), (''edges'', JList []), (''complexity'', JInt 1),
                   (''num_paths'', JInt 1), (''nesting_depth'', JInt 0)])
   \<and> (partial_graph_record raw \<and> i < length (items (field raw ''nodes''))
        \<and> lookup (items (field raw ''nodes'') ! i) ''id'' = None
      \<longrightarrow> (\<exists>r. validate_cfg raw = Inr r
             \<and> length (items (field r ''nodes'')) = length (items (field raw ''nodes''))
             \<and> lookup (items (field r ''nodes'') ! i) ''id'' = Some (JStr (''node'' @ str_nat (i + 1)))))
   \<and> ''node'' @ str_nat (0 + 1) = ''node1''
   \<and> ''node'' @ str_nat (4 + 1) = ''node5''
   \<and> (partial_graph_record (JDict kvs)
        \<and> lookup (JDict kvs) ''edges'' = Some (JList (es1 @ e # es2))
        \<and> lookup e ''to'' = None
      \<longrightarrow> validate_cfg (JDict kvs) = validate_cfg (JDict (dict_set ''edges'' (JList (es1 @ es2)) kvs))
          \<and> (validated (JDict (dict_set ''edges'' (JList (es1 @ es2)) kvs))
               \<longrightarrow> validate_cfg (JDict kvs) = Inr (JDict (dict_set ''edges'' (JList (es1 @ es2)) kvs))))"
proof (intro conjI impI)
  show "validate_cfg (JDict [])
     = Inr (JDict [(''nodes'', JList []), (''edges'', JList []), (''complexity'', JInt 1),
                   (''num_paths'', JInt 1), (''nesting_depth'', JInt 0)])"
    by (simp add: validate_cfg_def ensure_key_def py_contains_def py_setitem_def py_getitem_def
          py_iter_def after_loop_def)
  show "''node'' @ str_nat (0 + 1) = ''node1''" by (simp add: str_nat.simps digit_char_def)
  show "''node'' @ str_nat (4 + 1) = ''node5''" by (simp add: str_nat.simps digit_char_def)
next
  assume a: "partial_graph_record raw \<and> i < length (items (field raw ''nodes''))
        \<and> lookup (items (field raw ''nodes'') ! i) ''id'' = None"
  then have p: "partial_graph_record raw" by simp
  show "\<exists>r. validate_cfg raw = Inr r
             \<and> length (items (field r ''nodes'')) = length (items (field raw ''nodes''))
             \<and> lookup (items (field r ''nodes'') ! i) ''id'' = Some (JStr (''node'' @ str_nat (i + 1)))"
    using a by (simp add: validate_cfg_partial [OF p] nodes_fill_record [OF p] nth_fill_nodes default_id)
next
  assume a: "partial_graph_record (JDict kvs)
        \<and> lookup (JDict kvs) ''edges'' = Some (JList (es1 @ e # es2))
        \<and> lookup e ''to'' = None"
  then have p: "partial_graph_record (JDict kvs)"
    and es: "lookup (JDict kvs) ''edges'' = Some (JList (es1 @ e # es2))"
    and e: "lookup e ''to'' = None" by simp_all
  have p': "partial_graph_record (JDict (dict_set ''edges'' (JList (es1 @ es2)) kvs))"
    using p es by (rule partial_graph_record_drop_edge)
  show eq: "validate_cfg (JDict kvs) = validate_cfg (JDict (dict_set ''edges'' (JList (es1 @ es2)) kvs))"
    by (simp add: validate_cfg_partial [OF p] validate_cfg_partial [OF p']
          fill_record_drop_edge [OF p es e])
  assume v: "validated (JDict (dict_set ''edges'' (JList (es1 @ es2)) kvs))"
  show "validate_cfg (JDict kvs) = Inr (JDict (dict_set ''edges'' (JList (es1 @ es2)) kvs))"
    unfolding eq by (simp add: validate_cfg_partial [OF p'] fill_record_validated [OF v])
qed

text \<open>An instance: five nodes without fields, and a valid record with one more edge that
  has no \<^verbatim>\<open>to\<close>.\<close>

definition five_bare_nodes :: json where
  "five_bare_nodes = JDict [(''nodes'', JList [JDict [], JDict [], JDict [], JDict [], JDict []])]"

definition edge_a :: json where
  "edge_a = JDict [(''from'', JStr ''n1''), (''to'', JStr ''n2''), (''label'', JStr [])]"

definition edge_without_to :: json where
  "edge_without_to = JDict [(''from'', JStr ''n2''), (''label'', JStr ''yes'')]"

definition edge_b :: json where
  "edge_b = JDict [(''from'', JStr ''n2''), (''to'', JStr ''n1''), (''label'', JStr ''no'')]"

definition record_with_edges :: "json list \<Rightarrow> (string \<times> json) list" where
  "record_with_edges es =
     [(''nodes'', JList
         [JDict [(''id'', JStr ''n1''), (''type'', JStr ''START''), (''label'', JStr ''Start''),
                 (''next_nodes'', JList [JStr ''n2'']), (''condition'', JNull)],
          JDict [(''id'', JStr ''n2''), (''type'', JStr ''DECISION''), (''label'', JStr ''Test''),
                 (''next_nodes'', JList [JStr ''n1'']), (''condition'', JStr ''x > 0'')]]),
      (''edges'', JList es), (''complexity'', JInt 2), (''num_paths'', JInt 2),
      (''nesting_depth'', JInt 1)]"

theorem validate_cfg_default_filling_witness:
  "partial_graph_record five_bare_nodes
   \<and> (4::nat) < length (items (field five_bare_nodes ''nodes''))
   \<and> lookup (items (field five_bare_nodes ''nodes'') ! 4) ''id'' = None
   \<and> (\<exists>r. validate_cfg five_bare_nodes = Inr r
          \<and> lookup (items (field r ''nodes'') ! 4) ''id'' = Some (JStr ''node5''))
   \<and> partial_graph_record (JDict (record_with_edges [edge_a, edge_without_to, edge_b]))
   \<and> lookup edge_without_to ''to'' = None
   \<and> validated (JDict (record_with_edges [edge_a, edge_b]))
   \<and> validate_cfg (JDict (record_with_edges [edge_a, edge_without_to, edge_b]))
       = Inr (JDict (record_with_edges [edge_a, edge_b]))"
proof -
  have h1: "partial_graph_record five_bare_nodes \<and> (4::nat) < length (items (field five_bare_nodes ''nodes''))
     \<and> lookup (items (field five_bare_nodes ''nodes'') ! 4) ''id'' = None"
    by (simp add: five_bare_nodes_def partial_graph_record_def list_of_dicts_def lookup_def
          is_dict_def is_list_def items_def field_def the_default_def)
  have h2: "partial_graph_record (JDict (record_with_edges [edge_a, edge_without_to, edge_b]))
     \<and> lookup (JDict (record_with_edges [edge_a, edge_without_to, edge_b])) ''edges''
         = Some (JList ([edge_a] @ edge_without_to # [edge_b]))
     \<and> lookup edge_without_to ''to'' = None"
    by (simp add: record_with_edges_def edge_a_def edge_b_def edge_without_to_def
          partial_graph_record_def list_of_dicts_def lookup_def
          is_dict_def is_list_def items_def)
  have d: "dict_set ''edges'' (JList ([edge_a] @ [edge_b])) (record_with_edges [edge_a, edge_without_to, edge_b])
            = record_with_edges [edge_a, edge_b]"
    by (simp add: record_with_edges_def)
  have h3: "validated (JDict (record_with_edges [edge_a, edge_b]))"
    by (simp add: record_with_edges_def edge_a_def edge_b_def validated_def has_fields_def
          valid_edge_def node_fields_def lookup_def field_def the_default_def
          is_dict_def is_list_def items_def truthy_def)
  show ?thesis
    using h1 h2 h3
      validate_cfg_default_filling
        [of five_bare_nodes 4 "record_with_edges [edge_a, edge_without_to, edge_b]"
            "[edge_a]" edge_without_to "[edge_b]"]
    unfolding d
    by (auto simp: str_nat.simps digit_char_def)
qed

section \<open>Properties of the assembly\<close>











section \<open>Properties of \<^verbatim>\<open>pseudocode_to_cfg\<close> and \<^verbatim>\<open>flowchart_to_cfg\<close>\<close>



























end
